theory Spec2Isabelle
  imports Main "HOL-Library.AList"
begin

section \<open>Python values held by the task manager\<close>

text \<open>
  \<^verbatim>\<open>self.tasks\<close> is whatever \<^verbatim>\<open>json.load\<close> returned, or the list the methods
  built: a JSON value. Dictionaries are association lists in insertion order, as Python
  keeps them. JSON numbers with a fraction (Python floats) are left out of the model; the
  program itself only ever writes integers and strings.
\<close>

datatype pyval =
    PNone
  | PBool bool
  | PInt int
  | PStr string
  | PList "pyval list"
  | PDict "(string \<times> pyval) list"

datatype py_error =
    FileNotFoundError
  | PermissionError
  | JSONDecodeError
  | UnicodeDecodeError
  | UnicodeEncodeError
  | TypeError
  | KeyError
  | AttributeError

text \<open>\<^verbatim>\<open>len(v)\<close>: lists, dictionaries and strings have a length, nothing else does.\<close>

fun py_len :: "pyval \<Rightarrow> py_error + nat" where
  "py_len (PList xs) = Inr (length xs)"
| "py_len (PDict kvs) = Inr (length kvs)"
| "py_len (PStr s) = Inr (length s)"
| "py_len v = Inl TypeError"

text \<open>\<^verbatim>\<open>v.append(x)\<close>: only a list has the method.\<close>

fun py_append :: "pyval \<Rightarrow> pyval \<Rightarrow> py_error + pyval" where
  "py_append (PList xs) x = Inr (PList (xs @ [x]))"
| "py_append v x = Inl AttributeError"

text \<open>
  \<^verbatim>\<open>for task in v\<close>: a list yields its elements, a dictionary its keys, a string
  its characters as one-character strings; anything else is not iterable.
\<close>

fun py_iter :: "pyval \<Rightarrow> py_error + pyval list" where
  "py_iter (PList xs) = Inr xs"
| "py_iter (PDict kvs) = Inr (map (\<lambda>kv. PStr (fst kv)) kvs)"
| "py_iter (PStr s) = Inr (map (\<lambda>c. PStr [c]) s)"
| "py_iter v = Inl TypeError"

text \<open>\<^verbatim>\<open>v[k]\<close> with a string key \<open>k\<close>: a dictionary looks the key up, every other
  value rejects a string subscript.\<close>

fun py_getitem :: "pyval \<Rightarrow> string \<Rightarrow> py_error + pyval" where
  "py_getitem (PDict kvs) k = (case map_of kvs k of None \<Rightarrow> Inl KeyError | Some v \<Rightarrow> Inr v)"
| "py_getitem v k = Inl TypeError"

text \<open>\<^verbatim>\<open>v[k] = x\<close> with a string key: an existing key keeps its place, a new key
  goes to the end.\<close>

fun py_setitem :: "pyval \<Rightarrow> string \<Rightarrow> pyval \<Rightarrow> py_error + pyval" where
  "py_setitem (PDict kvs) k x = Inr (PDict (AList.update k x kvs))"
| "py_setitem v k x = Inl TypeError"

text \<open>\<^verbatim>\<open>v == n\<close> for an integer \<open>n\<close>; \<^verbatim>\<open>bool\<close> is a subclass of \<^verbatim>\<open>int\<close>, so
  \<^verbatim>\<open>True == 1\<close>.\<close>

fun py_eq_int :: "pyval \<Rightarrow> int \<Rightarrow> bool" where
  "py_eq_int (PInt i) n = (i = n)"
| "py_eq_int (PBool b) n = ((if b then 1 else 0) = n)"
| "py_eq_int v n = False"

text \<open>\<^verbatim>\<open>v == s\<close> for a string \<open>s\<close>.\<close>

fun py_eq_str :: "pyval \<Rightarrow> string \<Rightarrow> bool" where
  "py_eq_str (PStr t) s = (t = s)"
| "py_eq_str v s = False"

section \<open>The process state\<close>

text \<open>What \<^verbatim>\<open>print\<close> writes, one value per call. The texts carry emoji; the model
  keeps the message kind and the values formatted into it.\<close>

datatype icon = Hourglass | Cycle | Check | Memo

datatype line =
    TaskAdded pyval              \<comment> \<open>\<^verbatim>\<open>Tarea agregada (ID: {task['id']})\<close>\<close>
  | TaskUpdated int              \<comment> \<open>\<^verbatim>\<open>Tarea {task_id} actualizada\<close>\<close>
  | TaskDeleted int              \<comment> \<open>\<^verbatim>\<open>Tarea {task_id} eliminada\<close>\<close>
  | StatusChanged int string     \<comment> \<open>\<^verbatim>\<open>Tarea {task_id} marcada como '{status}'\<close>\<close>
  | NotFound int                 \<comment> \<open>\<^verbatim>\<open>Tarea con ID {task_id} no encontrada\<close>\<close>
  | InvalidStatus                \<comment> \<open>\<^verbatim>\<open>Estado invalido. Usa: pendiente, en_progreso, terminada\<close>\<close>
  | NoTasks                      \<comment> \<open>\<^verbatim>\<open>No hay tareas registradas\<close>\<close>
  | NoneWith icon                \<comment> \<open>\<^verbatim>\<open>No hay tareas en progreso / pendientes / terminadas\<close>\<close>
  | Banner                       \<comment> \<open>\<^verbatim>\<open>"\n" + "="*50\<close>\<close>
  | TitleAll                     \<comment> \<open>\<^verbatim>\<open>TODAS LAS TAREAS\<close>\<close>
  | Title icon                   \<comment> \<open>\<^verbatim>\<open>TAREAS EN PROGRESO / PENDIENTES / TERMINADAS\<close>\<close>
  | Rule                         \<comment> \<open>\<^verbatim>\<open>"="*50\<close>\<close>
  | FullRow icon pyval pyval pyval  \<comment> \<open>\<^verbatim>\<open>{icon} ID: {id} | {description} | Estado: {status}\<close>\<close>
  | ShortRow icon pyval pyval    \<comment> \<open>\<^verbatim>\<open>{icon} ID: {id} | {description}\<close>\<close>
  | Blank                        \<comment> \<open>\<^verbatim>\<open>print()\<close>\<close>

text \<open>The file at \<^verbatim>\<open>self.filename\<close>, when it exists: its permission bits for this
  process and its bytes.\<close>

record backing_file =
  readable :: bool
  writable :: bool
  data :: string

text \<open>
  \<open>tasks\<close> is \<^verbatim>\<open>self.tasks\<close>; \<open>disk\<close> is the backing file (\<open>None\<close> when the path does
  not exist); \<open>dir_writable\<close> says whether this process may create a file in the
  directory of the path; \<open>stdout\<close> the lines printed so far; \<open>ticks\<close> the number of
  clock readings taken so far; \<open>writes\<close> counts the completed runs of \<^verbatim>\<open>save_tasks\<close>.
\<close>

record world =
  tasks :: pyval
  disk :: "backing_file option"
  dir_writable :: bool
  stdout :: "line list"
  ticks :: nat
  writes :: nat

text \<open>
  The library calls the program makes and does not define: \<^verbatim>\<open>json.dump\<close> with
  \<^verbatim>\<open>indent=2, ensure_ascii=False\<close> into a file opened as UTF-8 (the text written for a
  value, or the exception raised: a string that holds a lone surrogate cannot be
  encoded), \<^verbatim>\<open>json.load\<close> on a file opened as UTF-8 (the value decoded from the bytes,
  or the exception raised), and \<^verbatim>\<open>datetime.now().isoformat()\<close> (the text of the
  \<open>k\<close>-th clock reading).
\<close>

record env =
  json_dump :: "pyval \<Rightarrow> py_error + string"
  json_load :: "string \<Rightarrow> py_error + pyval"
  now_iso :: "nat \<Rightarrow> string"

definition print :: "line \<Rightarrow> world \<Rightarrow> world" where
  "print l w = w\<lparr>stdout := stdout w @ [l]\<rparr>"

definition os_path_exists :: "world \<Rightarrow> bool" where
  "os_path_exists w = (disk w \<noteq> None)"

text \<open>\<^verbatim>\<open>open(self.filename, 'r', encoding='utf-8')\<close>\<close>

definition open_read :: "world \<Rightarrow> py_error + string" where
  "open_read w =
     (case disk w of
        None \<Rightarrow> Inl FileNotFoundError
      | Some f \<Rightarrow> if readable f then Inr (data f) else Inl PermissionError)"

section \<open>TaskManager\<close>

text \<open>
  \<^verbatim>\<open>load_tasks\<close>: the body of the \<^verbatim>\<open>try\<close>, then the handler, which catches
  \<^verbatim>\<open>json.JSONDecodeError\<close> and \<^verbatim>\<open>FileNotFoundError\<close> and nothing else.
\<close>

definition load_tasks_try :: "env \<Rightarrow> world \<Rightarrow> py_error + pyval" where
  "load_tasks_try E w =
     (if os_path_exists w then
        (case open_read w of
           Inl e \<Rightarrow> Inl e
         | Inr bytes \<Rightarrow> json_load E bytes)
      else Inr (PList []))"

definition load_tasks :: "env \<Rightarrow> world \<Rightarrow> py_error + pyval" where
  "load_tasks E w =
     (case load_tasks_try E w of
        Inl e \<Rightarrow> if e = JSONDecodeError \<or> e = FileNotFoundError then Inr (PList []) else Inl e
      | Inr v \<Rightarrow> Inr v)"

text \<open>\<^verbatim>\<open>__init__\<close>: \<^verbatim>\<open>self.tasks = self.load_tasks()\<close>\<close>

definition init :: "env \<Rightarrow> world \<Rightarrow> py_error + world" where
  "init E w =
     (case load_tasks E w of
        Inl e \<Rightarrow> Inl e
      | Inr v \<Rightarrow> Inr (w\<lparr>tasks := v\<rparr>))"

text \<open>
  \<^verbatim>\<open>open(self.filename, 'w', encoding='utf-8')\<close>: a missing file is created when the
  directory allows it, an existing one is truncated, and a file this process may not
  write, or may not create, is refused.
\<close>

definition open_write :: "world \<Rightarrow> py_error + backing_file" where
  "open_write w =
     (case disk w of
        None \<Rightarrow>
          if dir_writable w then Inr \<lparr>readable = True, writable = True, data = []\<rparr>
          else Inl PermissionError
      | Some f \<Rightarrow> if writable f then Inr (f\<lparr>data := []\<rparr>) else Inl PermissionError)"

text \<open>
  \<^verbatim>\<open>save_tasks\<close>: the whole of \<^verbatim>\<open>self.tasks\<close> is dumped into the opened file. When
  the dump raises, the exception leaves the method: the file, already truncated, keeps
  what was written before the failure, and the process ends with the exception, which
  is all the result then holds.
\<close>

definition save_tasks :: "env \<Rightarrow> world \<Rightarrow> py_error + world" where
  "save_tasks E w =
     (case open_write w of
        Inl e \<Rightarrow> Inl e
      | Inr f \<Rightarrow>
          (case json_dump E (tasks w) of
             Inl e \<Rightarrow> Inl e
           | Inr text \<Rightarrow>
               Inr (w\<lparr>disk := Some (f\<lparr>data := text\<rparr>),
                      writes := Suc (writes w)\<rparr>)))"

text \<open>\<^verbatim>\<open>add_task\<close>: the clock is read twice, once for each timestamp.\<close>

definition add_task :: "env \<Rightarrow> string \<Rightarrow> world \<Rightarrow> py_error + world" where
  "add_task E description w =
     (case py_len (tasks w) of
        Inl e \<Rightarrow> Inl e
      | Inr n \<Rightarrow>
          let task = PDict
                [(''id'', PInt (int n + 1)),
                 (''description'', PStr description),
                 (''status'', PStr ''pendiente''),
                 (''created_at'', PStr (now_iso E (ticks w))),
                 (''updated_at'', PStr (now_iso E (Suc (ticks w))))];
              w1 = w\<lparr>ticks := Suc (Suc (ticks w))\<rparr>
          in (case py_append (tasks w1) task of
                Inl e \<Rightarrow> Inl e
              | Inr ts \<Rightarrow>
                  (case save_tasks E (w1\<lparr>tasks := ts\<rparr>) of
                     Inl e \<Rightarrow> Inl e
                   | Inr w2 \<Rightarrow>
                       (case py_getitem task ''id'' of
                          Inl e \<Rightarrow> Inl e
                        | Inr i \<Rightarrow> Inr (print (TaskAdded i) w2)))))"

text \<open>
  The scan the three loops share, \<^verbatim>\<open>for task in self.tasks: if task["id"] == task_id\<close>:
  the position and value of the first task whose id equals \<open>task_id\<close>, \<open>None\<close> when the
  loop runs to its end, or the exception of the first \<^verbatim>\<open>task["id"]\<close> that fails on the
  way.
\<close>

fun find_task :: "int \<Rightarrow> pyval list \<Rightarrow> py_error + (nat \<times> pyval) option" where
  "find_task task_id [] = Inr None"
| "find_task task_id (task # rest) =
     (case py_getitem task ''id'' of
        Inl e \<Rightarrow> Inl e
      | Inr v \<Rightarrow>
          if py_eq_int v task_id then Inr (Some (0, task))
          else (case find_task task_id rest of
                  Inl e \<Rightarrow> Inl e
                | Inr None \<Rightarrow> Inr None
                | Inr (Some (i, t)) \<Rightarrow> Inr (Some (Suc i, t))))"

text \<open>
  \<^verbatim>\<open>update_task\<close>. The task found is an element of the list \<^verbatim>\<open>self.tasks\<close> (the keys
  of a dictionary and the characters of a string have no \<^verbatim>\<open>["id"]\<close>), and the two
  assignments change it in place, at its position.
\<close>

definition update_task :: "env \<Rightarrow> int \<Rightarrow> string \<Rightarrow> world \<Rightarrow> py_error + world" where
  "update_task E task_id description w =
     (case py_iter (tasks w) of
        Inl e \<Rightarrow> Inl e
      | Inr items \<Rightarrow>
          (case find_task task_id items of
             Inl e \<Rightarrow> Inl e
           | Inr None \<Rightarrow> Inr (print (NotFound task_id) w)
           | Inr (Some (i, task)) \<Rightarrow>
               (case py_setitem task ''description'' (PStr description) of
                  Inl e \<Rightarrow> Inl e
                | Inr task1 \<Rightarrow>
                    (case py_setitem task1 ''updated_at'' (PStr (now_iso E (ticks w))) of
                       Inl e \<Rightarrow> Inl e
                     | Inr task2 \<Rightarrow>
                         (case save_tasks E
                                 (w\<lparr>tasks := PList (items[i := task2]),
                                    ticks := Suc (ticks w)\<rparr>) of
                            Inl e \<Rightarrow> Inl e
                          | Inr w' \<Rightarrow> Inr (print (TaskUpdated task_id) w'))))))"

text \<open>\<^verbatim>\<open>delete_task\<close>: \<^verbatim>\<open>del self.tasks[i]\<close> at the position found.\<close>

definition delete_task :: "env \<Rightarrow> int \<Rightarrow> world \<Rightarrow> py_error + world" where
  "delete_task E task_id w =
     (case py_iter (tasks w) of
        Inl e \<Rightarrow> Inl e
      | Inr items \<Rightarrow>
          (case find_task task_id items of
             Inl e \<Rightarrow> Inl e
           | Inr None \<Rightarrow> Inr (print (NotFound task_id) w)
           | Inr (Some (i, task)) \<Rightarrow>
               (case save_tasks E (w\<lparr>tasks := PList (take i items @ drop (Suc i) items)\<rparr>) of
                  Inl e \<Rightarrow> Inl e
                | Inr w' \<Rightarrow> Inr (print (TaskDeleted task_id) w'))))"

definition valid_statuses :: "string list" where
  "valid_statuses = [''pendiente'', ''en_progreso'', ''terminada'']"

text \<open>\<^verbatim>\<open>update_status\<close>: the status is checked before the list is looked at.\<close>

definition update_status :: "env \<Rightarrow> int \<Rightarrow> string \<Rightarrow> world \<Rightarrow> py_error + world" where
  "update_status E task_id status w =
     (if status \<notin> set valid_statuses then Inr (print InvalidStatus w)
      else
        (case py_iter (tasks w) of
           Inl e \<Rightarrow> Inl e
         | Inr items \<Rightarrow>
             (case find_task task_id items of
                Inl e \<Rightarrow> Inl e
              | Inr None \<Rightarrow> Inr (print (NotFound task_id) w)
              | Inr (Some (i, task)) \<Rightarrow>
                  (case py_setitem task ''status'' (PStr status) of
                     Inl e \<Rightarrow> Inl e
                   | Inr task1 \<Rightarrow>
                       (case py_setitem task1 ''updated_at'' (PStr (now_iso E (ticks w))) of
                          Inl e \<Rightarrow> Inl e
                        | Inr task2 \<Rightarrow>
                            (case save_tasks E
                                    (w\<lparr>tasks := PList (items[i := task2]),
                                       ticks := Suc (ticks w)\<rparr>) of
                               Inl e \<Rightarrow> Inl e
                             | Inr w' \<Rightarrow> Inr (print (StatusChanged task_id status) w')))))))"

text \<open>\<^verbatim>\<open>if not v\<close>: the values Python takes for false.\<close>

fun py_not :: "pyval \<Rightarrow> bool" where
  "py_not PNone = True"
| "py_not (PBool b) = (\<not> b)"
| "py_not (PInt i) = (i = 0)"
| "py_not (PStr s) = (s = [])"
| "py_not (PList xs) = (xs = [])"
| "py_not (PDict kvs) = (kvs = [])"

text \<open>\<^verbatim>\<open>_get_status_icon\<close>: \<^verbatim>\<open>icons.get(status, default)\<close> hashes its argument, which
  a list or a dictionary does not allow.\<close>

fun get_status_icon :: "pyval \<Rightarrow> py_error + icon" where
  "get_status_icon (PStr s) =
     Inr (if s = ''pendiente'' then Hourglass
          else if s = ''en_progreso'' then Cycle
          else if s = ''terminada'' then Check
          else Memo)"
| "get_status_icon (PList xs) = Inl TypeError"
| "get_status_icon (PDict kvs) = Inl TypeError"
| "get_status_icon v = Inr Memo"

text \<open>The loop of \<^verbatim>\<open>list_all_tasks\<close>: one printed row per task.\<close>

fun full_rows :: "pyval list \<Rightarrow> py_error + line list" where
  "full_rows [] = Inr []"
| "full_rows (task # rest) =
     (case py_getitem task ''status'' of
        Inl e \<Rightarrow> Inl e
      | Inr s \<Rightarrow>
          (case get_status_icon s of
             Inl e \<Rightarrow> Inl e
           | Inr status_icon \<Rightarrow>
               (case py_getitem task ''id'' of
                  Inl e \<Rightarrow> Inl e
                | Inr i \<Rightarrow>
                    (case py_getitem task ''description'' of
                       Inl e \<Rightarrow> Inl e
                     | Inr d \<Rightarrow>
                         (case full_rows rest of
                            Inl e \<Rightarrow> Inl e
                          | Inr rows \<Rightarrow> Inr (FullRow status_icon i d s # rows))))))"

definition list_all_tasks :: "world \<Rightarrow> py_error + world" where
  "list_all_tasks w =
     (if py_not (tasks w) then Inr (print NoTasks w)
      else
        (case py_iter (tasks w) of
           Inl e \<Rightarrow> Inl e
         | Inr items \<Rightarrow>
             (case full_rows items of
                Inl e \<Rightarrow> Inl e
              | Inr rows \<Rightarrow>
                  Inr (w\<lparr>stdout := stdout w @ [Banner, TitleAll, Rule] @ rows @ [Blank]\<rparr>))))"

text \<open>The comprehension \<^verbatim>\<open>[task for task in self.tasks if task["status"] == s]\<close>.\<close>

fun select_status :: "string \<Rightarrow> pyval list \<Rightarrow> py_error + pyval list" where
  "select_status s [] = Inr []"
| "select_status s (task # rest) =
     (case py_getitem task ''status'' of
        Inl e \<Rightarrow> Inl e
      | Inr v \<Rightarrow>
          (case select_status s rest of
             Inl e \<Rightarrow> Inl e
           | Inr chosen \<Rightarrow> Inr (if py_eq_str v s then task # chosen else chosen)))"

text \<open>The loop that prints the chosen tasks.\<close>

fun short_rows :: "icon \<Rightarrow> pyval list \<Rightarrow> py_error + line list" where
  "short_rows ic [] = Inr []"
| "short_rows ic (task # rest) =
     (case py_getitem task ''id'' of
        Inl e \<Rightarrow> Inl e
      | Inr i \<Rightarrow>
          (case py_getitem task ''description'' of
             Inl e \<Rightarrow> Inl e
           | Inr d \<Rightarrow>
               (case short_rows ic rest of
                  Inl e \<Rightarrow> Inl e
                | Inr rows \<Rightarrow> Inr (ShortRow ic i d # rows))))"

text \<open>
  \<^verbatim>\<open>list_in_progress_tasks\<close>, \<^verbatim>\<open>list_pending_tasks\<close> and \<^verbatim>\<open>list_completed_tasks\<close>
  are the same method text up to the status compared with and the icon printed.
\<close>

definition list_with_status :: "string \<Rightarrow> icon \<Rightarrow> world \<Rightarrow> py_error + world" where
  "list_with_status s ic w =
     (case py_iter (tasks w) of
        Inl e \<Rightarrow> Inl e
      | Inr items \<Rightarrow>
          (case select_status s items of
             Inl e \<Rightarrow> Inl e
           | Inr chosen \<Rightarrow>
               if chosen = [] then Inr (print (NoneWith ic) w)
               else
                 (case short_rows ic chosen of
                    Inl e \<Rightarrow> Inl e
                  | Inr rows \<Rightarrow>
                      Inr (w\<lparr>stdout := stdout w @ [Banner, Title ic, Rule] @ rows @ [Blank]\<rparr>))))"

definition list_in_progress_tasks :: "world \<Rightarrow> py_error + world" where
  "list_in_progress_tasks = list_with_status ''en_progreso'' Cycle"

definition list_pending_tasks :: "world \<Rightarrow> py_error + world" where
  "list_pending_tasks = list_with_status ''pendiente'' Hourglass"

definition list_completed_tasks :: "world \<Rightarrow> py_error + world" where
  "list_completed_tasks = list_with_status ''terminada'' Check"

section \<open>Tasks, stores and runs\<close>

text \<open>
  A task as the program builds it: the five fields of the dictionary literal in
  \<^verbatim>\<open>add_task\<close>, in its key order. A store of tasks is a list of such dictionaries.
\<close>

record task =
  t_id :: int
  t_description :: string
  t_status :: string
  t_created_at :: string
  t_updated_at :: string

definition task_dict :: "task \<Rightarrow> pyval" where
  "task_dict t = PDict
     [(''id'', PInt (t_id t)),
      (''description'', PStr (t_description t)),
      (''status'', PStr (t_status t)),
      (''created_at'', PStr (t_created_at t)),
      (''updated_at'', PStr (t_updated_at t))]"

definition store_of :: "task list \<Rightarrow> pyval" where
  "store_of ts = PList (map task_dict ts)"

text \<open>The backing file can be opened for writing: it is missing and can be created, or
  present and writable.\<close>

definition can_write :: "world \<Rightarrow> bool" where
  "can_write w = (case disk w of None \<Rightarrow> dir_writable w | Some f \<Rightarrow> writable f)"

text \<open>\<^verbatim>\<open>json.dump\<close> writes the value without raising.\<close>

definition can_dump :: "env \<Rightarrow> pyval \<Rightarrow> bool" where
  "can_dump E v = (case json_dump E v of Inl e \<Rightarrow> False | Inr text \<Rightarrow> True)"

text \<open>A sequence of method calls on one \<^verbatim>\<open>TaskManager\<close>; an exception ends it.\<close>

datatype op =
    Add string
  | UpdateDescription int string
  | UpdateStatus int string
  | Delete int

fun apply_op :: "env \<Rightarrow> op \<Rightarrow> world \<Rightarrow> py_error + world" where
  "apply_op E (Add d) w = add_task E d w"
| "apply_op E (UpdateDescription i d) w = update_task E i d w"
| "apply_op E (UpdateStatus i s) w = update_status E i s w"
| "apply_op E (Delete i) w = delete_task E i w"

fun run :: "env \<Rightarrow> op list \<Rightarrow> world \<Rightarrow> py_error + world" where
  "run E [] w = Inr w"
| "run E (x # xs) w =
     (case apply_op E x w of
        Inl e \<Rightarrow> Inl e
      | Inr w' \<Rightarrow> run E xs w')"

text \<open>The ids of a store, read as the scan reads them.\<close>

fun ids_of :: "pyval \<Rightarrow> (py_error + pyval) list" where
  "ids_of (PList xs) = map (\<lambda>x. py_getitem x ''id'') xs"
| "ids_of v = []"

text \<open>
  The tasks that successive \<^verbatim>\<open>add_task\<close> calls build, by the dictionary literal of
  \<^verbatim>\<open>add_task\<close>: the first call finds \<open>n\<close> entries in the list and the clock at its
  \<open>k\<close>-th reading, and each call adds one entry and reads the clock twice.
\<close>

fun tasks_added :: "env \<Rightarrow> nat \<Rightarrow> nat \<Rightarrow> string list \<Rightarrow> task list" where
  "tasks_added E k n [] = []"
| "tasks_added E k n (d # ds) =
     \<lparr>t_id = int n + 1, t_description = d, t_status = ''pendiente'',
      t_created_at = now_iso E k, t_updated_at = now_iso E (Suc k)\<rparr>
     # tasks_added E (Suc (Suc k)) (Suc n) ds"

section \<open>Concrete inputs\<close>

text \<open>
  One task, and the text \<^verbatim>\<open>json.dump\<close> writes for the store that holds only it.
\<close>

definition milk :: task where
  "milk = \<lparr>t_id = 1, t_description = ''buy milk'', t_status = ''pendiente'',
            t_created_at = ''2025-01-01T10:00:00.000100'',
            t_updated_at = ''2025-01-01T10:00:00.000103''\<rparr>"

definition milk_text :: string where
  "milk_text =
     ''[\<newline>  {\<newline>    \"id\": 1,\<newline>    \"description\": \"buy milk\",\<newline>    \"status\": \"pendiente\",\<newline>    \"created_at\": \"2025-01-01T10:00:00.000100\",\<newline>    \"updated_at\": \"2025-01-01T10:00:00.000103\"\<newline>  }\<newline>]''"

text \<open>
  A stand-in for the library on the inputs of the examples below: the texts and values
  are the ones Python's \<^verbatim>\<open>json\<close> pairs up. A description given on the command line as
  the single byte \<^verbatim>\<open>0xFF\<close> reaches the program as a lone surrogate, which the dump
  cannot encode; every other value is dumped as a placeholder. As file content the byte
  \<^verbatim>\<open>0xFF\<close> is not UTF-8, and every other text is refused as malformed JSON. The
  clock gives three readings.
\<close>

definition example_env :: env where
  "example_env =
     \<lparr>json_dump = (\<lambda>v. if v = PList [] then Inr ''[]''
                       else if v = store_of [milk] then Inr milk_text
                       else if v = store_of [milk\<lparr>t_description := [CHR 0xFF]\<rparr>]
                       then Inl UnicodeEncodeError
                       else Inr ''[...]''),
      json_load = (\<lambda>s. if s = ''[]'' then Inr (PList [])
                       else if s = milk_text then Inr (store_of [milk])
                       else if s = ''{}'' then Inr (PDict [])
                       else if s = [CHR 0xFF] then Inl UnicodeDecodeError
                       else Inl JSONDecodeError),
      now_iso = (\<lambda>k. if k = 0 then ''2025-01-01T10:00:00.000100''
                     else if k = 1 then ''2025-01-01T10:00:00.000103''
                     else ''2025-01-01T10:00:07.250000'')\<rparr>"

text \<open>A process whose manager was built with no backing file present.\<close>

definition fresh_world :: world where
  "fresh_world =
     \<lparr>tasks = PList [], disk = None, dir_writable = True, stdout = [], ticks = 0, writes = 0\<rparr>"

text \<open>The state after \<^verbatim>\<open>add_task("buy milk")\<close> in that process, under the example clock.\<close>

definition milk_world :: world where
  "milk_world =
     \<lparr>tasks = store_of [milk],
      disk = Some \<lparr>readable = True, writable = True, data = milk_text\<rparr>,
      dir_writable = True, stdout = [TaskAdded (PInt 1)], ticks = 2, writes = 1\<rparr>"


text \<open>A backing file the process may not read, and a readable one with given bytes.\<close>

definition locked_world :: world where
  "locked_world = fresh_world\<lparr>disk := Some \<lparr>readable = False, writable = True, data = milk_text\<rparr>\<rparr>"

definition on_disk :: "string \<Rightarrow> world" where
  "on_disk bytes = fresh_world\<lparr>disk := Some \<lparr>readable = True, writable = True, data = bytes\<rparr>\<rparr>"

text \<open>Two more tasks, and a store of three with two statuses among them.\<close>

definition dog :: task where
  "dog = \<lparr>t_id = 2, t_description = ''walk the dog'', t_status = ''en_progreso'',
           t_created_at = ''2025-01-02T08:30:00.000000'',
           t_updated_at = ''2025-01-03T09:00:00.000000''\<rparr>"

definition bread :: task where
  "bread = \<lparr>t_id = 3, t_description = ''buy bread'', t_status = ''pendiente'',
             t_created_at = ''2025-01-04T08:30:00.000000'',
             t_updated_at = ''2025-01-04T08:30:00.000002''\<rparr>"

definition three_world :: world where
  "three_world = milk_world\<lparr>tasks := store_of [milk, dog, bread]\<rparr>"

section \<open>The scan, and stores of tasks under the operations\<close>

text \<open>
  What the scan returns is a position in the list scanned and the element there, whose
  id equals the one looked for; and a value whose iteration finds a task is a list, so
  the methods that update or delete write back into the list they scanned.
\<close>

lemma find_task_found:
  "find_task i xs = Inr (Some (k, t)) \<Longrightarrow>
     k < length xs \<and> xs ! k = t \<and> (\<exists>v. py_getitem t ''id'' = Inr v \<and> py_eq_int v i)"
proof (induction xs arbitrary: k)
  case Nil
  then show ?case by simp
next
  case (Cons x xs)
  then show ?case
    by (cases k) (auto split: sum.splits if_splits option.splits)
qed

lemma found_task_in_list:
  assumes "py_iter v = Inr xs" and "find_task i xs = Inr (Some (k, t))"
  shows "v = PList xs"
proof (cases v)
  case (PList ys)
  with assms(1) show ?thesis by simp
next
  case (PDict kvs)
  with assms show ?thesis by (cases kvs) auto
next
  case (PStr s)
  with assms show ?thesis by (cases s) auto
qed (use assms in auto)

lemma py_getitem_id: "py_getitem (task_dict t) ''id'' = Inr (PInt (t_id t))"
  by (simp add: task_dict_def)

lemma find_task_step:
  "find_task i (task_dict t # xs) =
     (if t_id t = i then Inr (Some (0, task_dict t))
      else (case find_task i xs of
              Inl e \<Rightarrow> Inl e
            | Inr None \<Rightarrow> Inr None
            | Inr (Some (k, x)) \<Rightarrow> Inr (Some (Suc k, x))))"
  by (simp add: py_getitem_id)

lemma find_task_store:
  "find_task i (map task_dict ts) = Inr None \<and> i \<notin> t_id ` set ts
   \<or> (\<exists>k. k < length ts \<and> t_id (ts ! k) = i
          \<and> find_task i (map task_dict ts) = Inr (Some (k, task_dict (ts ! k))))"
proof (induction ts)
  case Nil
  then show ?case by simp
next
  case (Cons t ts)
  show ?case
  proof (cases "t_id t = i")
    case True
    then have "0 < length (t # ts) \<and> t_id ((t # ts) ! 0) = i
        \<and> find_task i (map task_dict (t # ts)) = Inr (Some (0, task_dict ((t # ts) ! 0)))"
      by (simp add: find_task_step del: find_task.simps)
    then show ?thesis by blast
  next
    case False
    from Cons show ?thesis
    proof
      assume "find_task i (map task_dict ts) = Inr None \<and> i \<notin> t_id ` set ts"
      with False show ?thesis by (auto simp: find_task_step simp del: find_task.simps)
    next
      assume "\<exists>k. k < length ts \<and> t_id (ts ! k) = i
          \<and> find_task i (map task_dict ts) = Inr (Some (k, task_dict (ts ! k)))"
      then obtain k where "k < length ts" "t_id (ts ! k) = i"
        "find_task i (map task_dict ts) = Inr (Some (k, task_dict (ts ! k)))" by blast
      with False have "Suc k < length (t # ts) \<and> t_id ((t # ts) ! Suc k) = i
          \<and> find_task i (map task_dict (t # ts)) = Inr (Some (Suc k, task_dict ((t # ts) ! Suc k)))"
        by (simp add: find_task_step del: find_task.simps)
      then show ?thesis by blast
    qed
  qed
qed

lemma find_task_absent:
  "i \<notin> t_id ` set ts \<Longrightarrow> find_task i (map task_dict ts) = Inr None"
  by (induction ts) (auto simp: task_dict_def)

text \<open>The two assignments of the update methods, on a task.\<close>

lemma setitem_description:
  "py_setitem (task_dict t) ''description'' (PStr d) = Inr (task_dict (t\<lparr>t_description := d\<rparr>))"
  by (simp add: task_dict_def)

lemma setitem_status:
  "py_setitem (task_dict t) ''status'' (PStr s) = Inr (task_dict (t\<lparr>t_status := s\<rparr>))"
  by (simp add: task_dict_def)

lemma setitem_updated_at:
  "py_setitem (task_dict t) ''updated_at'' (PStr u) = Inr (task_dict (t\<lparr>t_updated_at := u\<rparr>))"
  by (simp add: task_dict_def)

lemma save_tasks_keeps: "save_tasks E w = Inr w' \<Longrightarrow> tasks w' = tasks w \<and> stdout w' = stdout w"
  by (auto simp: save_tasks_def split: sum.splits)

text \<open>
  Each method maps a store of tasks to a store of tasks: an update changes the first
  task with the id at its position, a deletion removes it, an addition appends one. So
  every state reached from a store of tasks is a store of tasks.
\<close>

lemma py_iter_store: "py_iter (store_of ts) = Inr (map task_dict ts)"
  by (simp add: store_of_def)

lemma update_task_store:
  assumes "tasks w = store_of ts" and "update_task E i d w = Inr w'"
  shows "tasks w' = store_of ts \<and> i \<notin> t_id ` set ts
       \<or> (\<exists>k. k < length ts \<and> t_id (ts ! k) = i
              \<and> tasks w' = store_of (ts[k := (ts ! k)\<lparr>t_description := d,
                                                    t_updated_at := now_iso E (ticks w)\<rparr>]))"
  using find_task_store[of i ts]
proof
  assume "find_task i (map task_dict ts) = Inr None \<and> i \<notin> t_id ` set ts"
  with assms show ?thesis by (auto simp: update_task_def py_iter_store print_def)
next
  assume "\<exists>k. k < length ts \<and> t_id (ts ! k) = i
          \<and> find_task i (map task_dict ts) = Inr (Some (k, task_dict (ts ! k)))"
  then obtain k where k: "k < length ts" "t_id (ts ! k) = i"
    "find_task i (map task_dict ts) = Inr (Some (k, task_dict (ts ! k)))" by blast
  let ?t = "(ts ! k)\<lparr>t_description := d, t_updated_at := now_iso E (ticks w)\<rparr>"
  from assms k(3) obtain w1 where sv:
    "save_tasks E (w\<lparr>tasks := PList ((map task_dict ts)[k := task_dict ?t]),
                     ticks := Suc (ticks w)\<rparr>) = Inr w1" "w' = print (TaskUpdated i) w1"
    by (auto simp: update_task_def py_iter_store setitem_description setitem_updated_at
          split: sum.splits)
  then have "tasks w' = PList ((map task_dict ts)[k := task_dict ?t])"
    using save_tasks_keeps[OF sv(1)] sv(2) by (simp add: print_def)
  then have "tasks w' = store_of (ts[k := ?t])" by (simp add: store_of_def map_update)
  with k show ?thesis by blast
qed

lemma update_status_store:
  assumes "tasks w = store_of ts" and "update_status E i s w = Inr w'"
  shows "tasks w' = store_of ts
       \<or> (\<exists>k. k < length ts \<and> t_id (ts ! k) = i \<and> s \<in> set valid_statuses
              \<and> tasks w' = store_of (ts[k := (ts ! k)\<lparr>t_status := s,
                                                    t_updated_at := now_iso E (ticks w)\<rparr>]))"
proof (cases "s \<in> set valid_statuses")
  case False
  with assms show ?thesis by (auto simp: update_status_def print_def)
next
  case True
  from find_task_store[of i ts] show ?thesis
  proof
    assume "find_task i (map task_dict ts) = Inr None \<and> i \<notin> t_id ` set ts"
    with assms True show ?thesis by (auto simp: update_status_def py_iter_store print_def)
  next
    assume "\<exists>k. k < length ts \<and> t_id (ts ! k) = i
          \<and> find_task i (map task_dict ts) = Inr (Some (k, task_dict (ts ! k)))"
    then obtain k where k: "k < length ts" "t_id (ts ! k) = i"
      "find_task i (map task_dict ts) = Inr (Some (k, task_dict (ts ! k)))" by blast
    let ?t = "(ts ! k)\<lparr>t_status := s, t_updated_at := now_iso E (ticks w)\<rparr>"
    from assms k(3) True obtain w1 where sv:
      "save_tasks E (w\<lparr>tasks := PList ((map task_dict ts)[k := task_dict ?t]),
                       ticks := Suc (ticks w)\<rparr>) = Inr w1" "w' = print (StatusChanged i s) w1"
      by (auto simp: update_status_def py_iter_store setitem_status setitem_updated_at
            split: sum.splits)
    then have "tasks w' = PList ((map task_dict ts)[k := task_dict ?t])"
      using save_tasks_keeps[OF sv(1)] sv(2) by (simp add: print_def)
    then have "tasks w' = store_of (ts[k := ?t])" by (simp add: store_of_def map_update)
    with k True show ?thesis by blast
  qed
qed

lemma delete_task_store:
  assumes "tasks w = store_of ts" and "delete_task E i w = Inr w'"
  shows "tasks w' = store_of ts \<and> i \<notin> t_id ` set ts
       \<or> (\<exists>k. k < length ts \<and> t_id (ts ! k) = i
              \<and> tasks w' = store_of (take k ts @ drop (Suc k) ts))"
  using find_task_store[of i ts]
proof
  assume "find_task i (map task_dict ts) = Inr None \<and> i \<notin> t_id ` set ts"
  with assms show ?thesis by (auto simp: delete_task_def py_iter_store print_def)
next
  assume "\<exists>k. k < length ts \<and> t_id (ts ! k) = i
          \<and> find_task i (map task_dict ts) = Inr (Some (k, task_dict (ts ! k)))"
  then obtain k where k: "k < length ts" "t_id (ts ! k) = i"
    "find_task i (map task_dict ts) = Inr (Some (k, task_dict (ts ! k)))" by blast
  from assms k(3) obtain w1 where sv:
    "save_tasks E (w\<lparr>tasks := PList (take k (map task_dict ts) @ drop (Suc k) (map task_dict ts))\<rparr>)
       = Inr w1" "w' = print (TaskDeleted i) w1"
    by (auto simp: delete_task_def py_iter_store split: sum.splits)
  then have "tasks w' = PList (take k (map task_dict ts) @ drop (Suc k) (map task_dict ts))"
    using save_tasks_keeps[OF sv(1)] sv(2) by (simp add: print_def)
  then have "tasks w' = store_of (take k ts @ drop (Suc k) ts)"
    by (simp add: store_of_def take_map drop_map)
  with k show ?thesis by blast
qed

lemma add_task_on_store:
  assumes "tasks w = store_of ts" and "add_task E d w = Inr w'"
  shows "tasks w' = store_of (ts @ [\<lparr>t_id = int (length ts) + 1, t_description = d,
                       t_status = ''pendiente'', t_created_at = now_iso E (ticks w),
                       t_updated_at = now_iso E (Suc (ticks w))\<rparr>])"
proof -
  from assms obtain w1 where sv:
    "save_tasks E (w\<lparr>ticks := Suc (Suc (ticks w)),
        tasks := PList (map task_dict ts @ [task_dict \<lparr>t_id = int (length ts) + 1, t_description = d,
                       t_status = ''pendiente'', t_created_at = now_iso E (ticks w),
                       t_updated_at = now_iso E (Suc (ticks w))\<rparr>])\<rparr>) = Inr w1"
    "w' = print (TaskAdded (PInt (int (length ts) + 1))) w1"
    by (auto simp: add_task_def store_of_def Let_def task_dict_def split: sum.splits)
  then show ?thesis
    using save_tasks_keeps[OF sv(1)] sv(2) by (simp add: print_def store_of_def)
qed

lemma run_keeps_store:
  "run E ops w = Inr w' \<Longrightarrow> tasks w = store_of ts \<Longrightarrow> \<exists>ts'. tasks w' = store_of ts'"
proof (induction ops arbitrary: w ts)
  case Nil
  then show ?case by auto
next
  case (Cons x ops)
  from Cons.prems(1) obtain w1 where w1: "apply_op E x w = Inr w1" "run E ops w1 = Inr w'"
    by (auto split: sum.splits)
  have "\<exists>ts1. tasks w1 = store_of ts1"
  proof (cases x)
    case (Add d)
    with w1(1) Cons.prems(2) show ?thesis using add_task_on_store by fastforce
  next
    case (UpdateDescription i d)
    with w1(1) Cons.prems(2) show ?thesis using update_task_store[of w ts E i d w1] by auto
  next
    case (UpdateStatus i s)
    with w1(1) Cons.prems(2) show ?thesis using update_status_store[of w ts E i s w1] by auto
  next
    case (Delete i)
    with w1(1) Cons.prems(2) show ?thesis using delete_task_store[of w ts E i w1] by auto
  qed
  then obtain ts1 where "tasks w1 = store_of ts1" by blast
  from Cons.IH[OF w1(2) this] show ?case .
qed

text \<open>
  Updates and deletions keep the ids pairwise distinct; only an addition can repeat one.
\<close>

lemma ids_after_update:
  "k < length ts \<Longrightarrow> t_id t = t_id (ts ! k) \<Longrightarrow> map t_id (ts[k := t]) = map t_id ts"
  by (simp add: map_update list_update_same_conv)

lemma distinct_after_delete:
  "distinct (map t_id ts) \<Longrightarrow> distinct (map t_id (take k ts @ drop (Suc k) ts))"
proof -
  assume d: "distinct (map t_id ts)"
  have "map t_id ts = map t_id (take k ts) @ map t_id (drop k ts)"
    by (metis append_take_drop_id map_append)
  with d have "distinct (map t_id (take k ts) @ map t_id (drop k ts))" by simp
  moreover have "set (drop (Suc k) ts) \<subseteq> set (drop k ts)"
    by (simp add: set_drop_subset_set_drop)
  moreover have "distinct (map t_id (drop (Suc k) ts))"
    using d by (simp add: distinct_drop drop_map[symmetric])
  ultimately show ?thesis by auto
qed

lemma other_ops_keep_ids_distinct:
  assumes "tasks w = store_of ts" and "distinct (map t_id ts)"
      and "apply_op E x w = Inr w'" and "\<forall>d. x \<noteq> Add d"
  shows "\<exists>ts'. tasks w' = store_of ts' \<and> distinct (map t_id ts')"
proof (cases x)
  case (Add d)
  with assms(4) show ?thesis by simp
next
  case (UpdateDescription i d)
  with assms(3) have "update_task E i d w = Inr w'" by simp
  from update_task_store[OF assms(1) this] show ?thesis
    using assms(2) ids_after_update by fastforce
next
  case (UpdateStatus i s)
  with assms(3) have "update_status E i s w = Inr w'" by simp
  from update_status_store[OF assms(1) this] show ?thesis
    using assms(2) ids_after_update by fastforce
next
  case (Delete i)
  with assms(3) have "delete_task E i w = Inr w'" by simp
  from delete_task_store[OF assms(1) this] show ?thesis
    using assms(2) distinct_after_delete by blast
qed

section \<open>Adding tasks\<close>

text \<open>One call: what it does when the dump of the longer list succeeds, and when it raises.\<close>

lemma add_task_store:
  assumes "tasks w = PList xs" and "can_write w"
      and "json_dump E (PList (xs @ [task_dict \<lparr>t_id = int (length xs) + 1, t_description = d,
                       t_status = ''pendiente'', t_created_at = now_iso E (ticks w),
                       t_updated_at = now_iso E (Suc (ticks w))\<rparr>])) = Inr text"
  shows "\<exists>w'. add_task E d w = Inr w'
           \<and> tasks w' = PList (xs @ [task_dict \<lparr>t_id = int (length xs) + 1, t_description = d,
                       t_status = ''pendiente'', t_created_at = now_iso E (ticks w),
                       t_updated_at = now_iso E (Suc (ticks w))\<rparr>])
           \<and> stdout w' = stdout w @ [TaskAdded (PInt (int (length xs) + 1))]
           \<and> ticks w' = Suc (Suc (ticks w))
           \<and> writes w' = Suc (writes w)
           \<and> dir_writable w' = dir_writable w
           \<and> (\<exists>f. disk w' = Some f \<and> writable f \<and> data f = text)"
  using assms
  by (auto simp: add_task_def can_write_def open_write_def save_tasks_def print_def
        task_dict_def Let_def split: option.splits)

lemma add_task_dump_raises:
  assumes "tasks w = PList xs" and "can_write w"
      and "json_dump E (PList (xs @ [task_dict \<lparr>t_id = int (length xs) + 1, t_description = d,
                       t_status = ''pendiente'', t_created_at = now_iso E (ticks w),
                       t_updated_at = now_iso E (Suc (ticks w))\<rparr>])) = Inl e"
  shows "add_task E d w = Inl e"
  using assms
  by (auto simp: add_task_def can_write_def open_write_def save_tasks_def
        task_dict_def Let_def split: option.splits)

lemma add_task_unencodable_description:
  "add_task example_env [CHR 0xFF] fresh_world = Inl UnicodeEncodeError"
  by (simp add: add_task_def Let_def fresh_world_def example_env_def save_tasks_def
        open_write_def store_of_def task_dict_def milk_def)

text \<open>The tasks a run of additions builds: their ids and descriptions.\<close>

lemma tasks_added_ids:
  "map t_id (tasks_added E k n ds) = map (\<lambda>i. int n + int i) [1..<Suc (length ds)]"
proof (induction ds arbitrary: k n)
  case Nil
  then show ?case by simp
next
  case (Cons d ds)
  have "[1..<Suc (length (d # ds))] = 1 # map Suc [1..<Suc (length ds)]"
    by (simp add: upt_conv_Cons map_Suc_upt del: upt_Suc)
  then show ?case
    using Cons.IH[of "Suc (Suc k)" "Suc n"] by (simp add: o_def del: upt_Suc)
qed

lemma tasks_added_descriptions: "map t_description (tasks_added E k n ds) = ds"
  by (induction ds arbitrary: k n) simp_all

lemma upto_from_one: "[1..int (Suc n)] = [1..int n] @ [int n + 1]"
  using upto_rec2[of 1 "int (Suc n)"] by (simp add: add.commute)

lemma map_int_upt_one: "map int [1..<Suc n] = [1..int n]"
proof (induction n)
  case 0
  then show ?case by simp
next
  case (Suc n)
  have "[1..int (Suc n)] = [1..int n] @ [int n + 1]" by (rule upto_from_one)
  with Suc show ?case by simp
qed

text \<open>A run of additions on a store of tasks, when every store it dumps can be dumped.\<close>

lemma run_adds:
  assumes "tasks w = store_of ts0" and "can_write w"
      and "\<forall>j. 0 < j \<and> j \<le> length ds \<longrightarrow>
             can_dump E (store_of (ts0 @ take j (tasks_added E (ticks w) (length ts0) ds)))"
  shows "\<exists>w'. run E (map Add ds) w = Inr w'
           \<and> tasks w' = store_of (ts0 @ tasks_added E (ticks w) (length ts0) ds)
           \<and> stdout w' = stdout w @ map (\<lambda>t. TaskAdded (PInt (t_id t)))
                                        (tasks_added E (ticks w) (length ts0) ds)"
  using assms
proof (induction ds arbitrary: w ts0)
  case Nil
  then show ?case by simp
next
  case (Cons d ds)
  let ?t = "\<lparr>t_id = int (length ts0) + 1, t_description = d,
             t_status = ''pendiente'', t_created_at = now_iso E (ticks w),
             t_updated_at = now_iso E (Suc (ticks w))\<rparr>"
  let ?rest = "tasks_added E (Suc (Suc (ticks w))) (Suc (length ts0)) ds"
  have added: "tasks_added E (ticks w) (length ts0) (d # ds) = ?t # ?rest" by simp
  from Cons.prems(3) have "can_dump E (store_of (ts0 @ take 1 (?t # ?rest)))"
    unfolding added by (metis One_nat_def length_Cons less_numeral_extra(1) Suc_le_mono zero_le)
  then obtain written where
    "json_dump E (PList (map task_dict ts0 @ [task_dict ?t])) = Inr written"
    by (auto simp: can_dump_def store_of_def split: sum.splits)
  from add_task_store[of w "map task_dict ts0" E d written] this Cons.prems(1,2)
  obtain w1 where w1: "add_task E d w = Inr w1" "tasks w1 = store_of (ts0 @ [?t])"
    "stdout w1 = stdout w @ [TaskAdded (PInt (int (length ts0) + 1))]" "can_write w1"
    "ticks w1 = Suc (Suc (ticks w))"
    by (auto simp: store_of_def can_write_def)
  have dumps: "\<forall>j. 0 < j \<and> j \<le> length ds \<longrightarrow>
      can_dump E (store_of ((ts0 @ [?t]) @ take j (tasks_added E (ticks w1) (length (ts0 @ [?t])) ds)))"
  proof (intro allI impI)
    fix j assume j: "0 < j \<and> j \<le> length ds"
    then have "0 < Suc j \<and> Suc j \<le> length (d # ds)" by simp
    with Cons.prems(3) have "can_dump E (store_of (ts0 @ take (Suc j) (?t # ?rest)))"
      unfolding added by blast
    then show "can_dump E (store_of ((ts0 @ [?t]) @ take j (tasks_added E (ticks w1) (length (ts0 @ [?t])) ds)))"
      using w1(5) by simp
  qed
  from Cons.IH[OF w1(2) w1(4) dumps] obtain w' where r:
    "run E (map Add ds) w1 = Inr w'"
    "tasks w' = store_of ((ts0 @ [?t]) @ tasks_added E (ticks w1) (length (ts0 @ [?t])) ds)"
    "stdout w' = stdout w1 @ map (\<lambda>t. TaskAdded (PInt (t_id t)))
                               (tasks_added E (ticks w1) (length (ts0 @ [?t])) ds)"
    by blast
  show ?case
    apply (rule exI[of _ w'])
    using w1 r by simp
qed

text \<open>
  C1. From the empty store, with a backing file that can be opened for writing and an
  encoder that can dump each of the stores the run passes through, any sequence of
  \<^verbatim>\<open>add_task\<close> calls runs to its end; the store then holds one task per call, in call
  order, the \<open>k\<close>-th with id \<open>k\<close> and the \<open>k\<close>-th description, and the ids printed are
  \<open>1..N\<close> in that order.
\<close>

theorem add_sequence_ids:
  assumes "tasks w = PList []" and "can_write w"
      and "\<forall>j. 0 < j \<and> j \<le> length ds \<longrightarrow>
             can_dump E (store_of (take j (tasks_added E (ticks w) 0 ds)))"
  shows "\<exists>w' ts. run E (map Add ds) w = Inr w'
           \<and> tasks w' = store_of ts
           \<and> ts = tasks_added E (ticks w) 0 ds
           \<and> map t_id ts = [1..int (length ds)]
           \<and> map t_description ts = ds
           \<and> stdout w' = stdout w @ map (\<lambda>i. TaskAdded (PInt i)) [1..int (length ds)]"
proof -
  let ?ts = "tasks_added E (ticks w) 0 ds"
  from assms(1) have e: "tasks w = store_of []" by (simp add: store_of_def)
  from assms(3) have d: "\<forall>j. 0 < j \<and> j \<le> length ds \<longrightarrow>
      can_dump E (store_of ([] @ take j (tasks_added E (ticks w) (length ([]::task list)) ds)))"
    by simp
  from run_adds[OF e assms(2) d] obtain w' where r:
    "run E (map Add ds) w = Inr w'" "tasks w' = store_of ?ts"
    "stdout w' = stdout w @ map (\<lambda>t. TaskAdded (PInt (t_id t))) ?ts"
    by auto
  have ids: "map t_id ?ts = [1..int (length ds)]"
    using tasks_added_ids[of E "ticks w" 0 ds] map_int_upt_one[of "length ds"] by simp
  have "map (\<lambda>t. TaskAdded (PInt (t_id t))) ?ts = map (\<lambda>i. TaskAdded (PInt i)) (map t_id ?ts)"
    by (simp add: o_def)
  with r ids tasks_added_descriptions[of E "ticks w" 0 ds] show ?thesis by auto
qed

theorem add_sequence_ids_witness:
  "tasks fresh_world = PList [] \<and> can_write fresh_world
   \<and> can_dump example_env
         (store_of (take 1 (tasks_added example_env (ticks fresh_world) 0
                              [''buy milk'', ''walk the dog''])))
   \<and> can_dump example_env
         (store_of (take 2 (tasks_added example_env (ticks fresh_world) 0
                              [''buy milk'', ''walk the dog''])))
   \<and> (\<exists>w' ts. run example_env (map Add [''buy milk'', ''walk the dog'']) fresh_world = Inr w'
         \<and> tasks w' = store_of ts
         \<and> map t_id ts = [1, 2]
         \<and> map t_description ts = [''buy milk'', ''walk the dog'']
         \<and> stdout w' = [TaskAdded (PInt 1), TaskAdded (PInt 2)])"
proof -
  let ?ds = "[''buy milk'', ''walk the dog'']"
  let ?ts = "tasks_added example_env (ticks fresh_world) 0 ?ds"
  have a: "tasks fresh_world = PList []" by (simp add: fresh_world_def)
  have b: "can_write fresh_world" by (simp add: fresh_world_def can_write_def)
  have c1: "can_dump example_env (store_of (take 1 ?ts))"
    by (simp add: can_dump_def example_env_def store_of_def task_dict_def milk_def)
  have c2: "can_dump example_env (store_of (take 2 ?ts))"
    by (simp add: can_dump_def example_env_def store_of_def task_dict_def milk_def)
  have c: "\<forall>j. 0 < j \<and> j \<le> length ?ds \<longrightarrow> can_dump example_env (store_of (take j ?ts))"
  proof (intro allI impI)
    fix j :: nat assume "0 < j \<and> j \<le> length ?ds"
    then have "j = 1 \<or> j = 2" by auto
    with c1 c2 show "can_dump example_env (store_of (take j ?ts))" by blast
  qed
  have u: "[1..2::int] = [1, 2]" by (simp add: upto.simps)
  have s: "stdout fresh_world = []" by (simp add: fresh_world_def)
  from add_sequence_ids[OF a b c] obtain w' ts where r:
    "run example_env (map Add ?ds) fresh_world = Inr w'"
    "tasks w' = store_of ts"
    "ts = ?ts"
    "map t_id ts = [1..int (length ?ds)]"
    "map t_description ts = ?ds"
    "stdout w' = stdout fresh_world @ map (\<lambda>i. TaskAdded (PInt i)) [1..int (length ?ds)]"
    by (elim exE conjE) (rule that, assumption+)
  from r(4) u have ids: "map t_id ts = [1, 2]" by simp
  from r(6) u s have out: "stdout w' = [TaskAdded (PInt 1), TaskAdded (PInt 2)]" by simp
  have "\<exists>w' ts. run example_env (map Add ?ds) fresh_world = Inr w'
         \<and> tasks w' = store_of ts
         \<and> map t_id ts = [1, 2]
         \<and> map t_description ts = ?ds
         \<and> stdout w' = [TaskAdded (PInt 1), TaskAdded (PInt 2)]"
    by (rule exI[of _ w'], rule exI[of _ ts]) (intro conjI r(1) r(2) ids r(5) out)
  with a b c1 c2 show ?thesis by (intro conjI)
qed

section \<open>Ids after a deletion\<close>

text \<open>
  C2. Ids do not stay pairwise distinct: \<^verbatim>\<open>add_task\<close> numbers the new task from the
  length of the list, so after three additions and the deletion of task 2 the next
  addition is given id 3 again. The store then holds ids 1, 3, 3.
\<close>

theorem id_reused_after_delete:
  "\<exists>w'. run example_env [Add ''a'', Add ''b'', Add ''c'', Delete 2, Add ''d''] fresh_world = Inr w'
       \<and> ids_of (tasks w') = [Inr (PInt 1), Inr (PInt 3), Inr (PInt 3)]
       \<and> \<not> distinct (ids_of (tasks w'))"
  by (simp add: add_task_def delete_task_def Let_def fresh_world_def example_env_def
        save_tasks_def open_write_def print_def store_of_def task_dict_def milk_def)

text \<open>The same ids come out under every environment in which the run completes.\<close>

lemma ids_of_store: "ids_of (store_of ts) = map (\<lambda>t. Inr (PInt (t_id t))) ts"
  by (simp add: store_of_def py_getitem_id)

lemma ids_after_delete_any_env:
  assumes "run E [Add ''a'', Add ''b'', Add ''c'', Delete 2, Add ''d''] fresh_world = Inr w'"
  shows "ids_of (tasks w') = [Inr (PInt 1), Inr (PInt 3), Inr (PInt 3)]"
proof -
  from assms obtain w1 w2 w3 w4 where steps:
    "add_task E ''a'' fresh_world = Inr w1" "add_task E ''b'' w1 = Inr w2"
    "add_task E ''c'' w2 = Inr w3" "delete_task E 2 w3 = Inr w4" "add_task E ''d'' w4 = Inr w'"
    by (auto split: sum.splits)
  have "tasks fresh_world = store_of []" by (simp add: fresh_world_def store_of_def)
  from add_task_on_store[OF this steps(1)] obtain t1 where
    t1: "tasks w1 = store_of [t1]" "t_id t1 = 1" by simp
  from add_task_on_store[OF t1(1) steps(2)] obtain t2 where
    t2: "tasks w2 = store_of [t1, t2]" "t_id t2 = 2" by simp
  from add_task_on_store[OF t2(1) steps(3)] obtain t3 where
    t3: "tasks w3 = store_of [t1, t2, t3]" "t_id t3 = 3" by simp
  from delete_task_store[OF t3(1) steps(4)] have
    "tasks w4 = store_of [t1, t2, t3] \<and> 2 \<notin> t_id ` set [t1, t2, t3]
     \<or> (\<exists>k. k < length [t1, t2, t3] \<and> t_id ([t1, t2, t3] ! k) = 2
            \<and> tasks w4 = store_of (take k [t1, t2, t3] @ drop (Suc k) [t1, t2, t3]))" .
  moreover have "2 \<in> t_id ` set [t1, t2, t3]" using t2(2) by simp
  ultimately obtain k where k: "k < length [t1, t2, t3]" "t_id ([t1, t2, t3] ! k) = 2"
    "tasks w4 = store_of (take k [t1, t2, t3] @ drop (Suc k) [t1, t2, t3])"
    by blast
  from k(1) have "k = 0 \<or> k = Suc 0 \<or> k = Suc (Suc 0)" by (auto simp: less_Suc_eq)
  with k(2) t1(2) t3(2) have "k = Suc 0" by auto
  with k(3) have t4: "tasks w4 = store_of [t1, t3]" by simp
  from add_task_on_store[OF t4 steps(5)] obtain t5 where
    "tasks w' = store_of [t1, t3, t5]" "t_id t5 = 3" by simp
  with t1(2) t3(2) show ?thesis by (simp add: ids_of_store)
qed

section \<open>Saving and loading\<close>



text \<open>
  C4, as amended. \<^verbatim>\<open>load_tasks\<close> returns the empty list when the file is missing and
  when its content fails to decode as JSON; it returns the decoded value when decoding
  succeeds; a file the process may not read raises \<^verbatim>\<open>PermissionError\<close>, and any
  exception of the read other than the two the handler names reaches the caller.
\<close>

theorem load_tasks_outcomes:
  "(disk w = None \<longrightarrow> load_tasks E w = Inr (PList []))
   \<and> (\<forall>f. disk w = Some f \<and> readable f \<and> json_load E (data f) = Inl JSONDecodeError
          \<longrightarrow> load_tasks E w = Inr (PList []))
   \<and> (\<forall>f v. disk w = Some f \<and> readable f \<and> json_load E (data f) = Inr v
          \<longrightarrow> load_tasks E w = Inr v)
   \<and> (\<forall>f. disk w = Some f \<and> \<not> readable f \<longrightarrow> load_tasks E w = Inl PermissionError)
   \<and> (\<forall>f e. disk w = Some f \<and> readable f \<and> json_load E (data f) = Inl e
            \<and> e \<noteq> JSONDecodeError \<and> e \<noteq> FileNotFoundError
          \<longrightarrow> load_tasks E w = Inl e)"
  by (auto simp: load_tasks_def load_tasks_try_def os_path_exists_def open_read_def)

theorem load_tasks_outcomes_witness:
  "load_tasks example_env fresh_world = Inr (PList [])
   \<and> load_tasks example_env (on_disk ''{\"id\": 1'') = Inr (PList [])
   \<and> load_tasks example_env (on_disk milk_text) = Inr (store_of [milk])
   \<and> load_tasks example_env locked_world = Inl PermissionError
   \<and> load_tasks example_env (on_disk [CHR 0xFF]) = Inl UnicodeDecodeError"
proof -
  have 1: "disk fresh_world = None" by (simp add: fresh_world_def)
  have 2: "disk (on_disk ''{\"id\": 1'') = Some \<lparr>readable = True, writable = True, data = ''{\"id\": 1''\<rparr>
           \<and> json_load example_env ''{\"id\": 1'' = Inl JSONDecodeError"
    by (simp add: on_disk_def example_env_def milk_text_def)
  have 3: "disk (on_disk milk_text) = Some \<lparr>readable = True, writable = True, data = milk_text\<rparr>
           \<and> json_load example_env milk_text = Inr (store_of [milk])"
    by (simp add: on_disk_def example_env_def milk_text_def)
  have 4: "disk locked_world = Some \<lparr>readable = False, writable = True, data = milk_text\<rparr>"
    by (simp add: locked_world_def)
  have 5: "disk (on_disk [CHR 0xFF]) = Some \<lparr>readable = True, writable = True, data = [CHR 0xFF]\<rparr>
           \<and> json_load example_env [CHR 0xFF] = Inl UnicodeDecodeError"
    by (simp add: on_disk_def example_env_def milk_text_def)
  show ?thesis
    using 1 2 3 4 5
      load_tasks_outcomes[of fresh_world example_env]
      load_tasks_outcomes[of "on_disk ''{\"id\": 1''" example_env]
      load_tasks_outcomes[of "on_disk milk_text" example_env]
      load_tasks_outcomes[of locked_world example_env]
      load_tasks_outcomes[of "on_disk [CHR 0xFF]" example_env]
    by simp
qed

text \<open>
  C4 as stated fails: a backing file that exists and may not be read makes
  \<^verbatim>\<open>load_tasks\<close> raise.
\<close>

theorem load_tasks_raises_counterexample:
  "load_tasks example_env locked_world = Inl PermissionError"
  by (simp add: load_tasks_def load_tasks_try_def os_path_exists_def open_read_def
        locked_world_def)

text \<open>
  C10. No validation at load time: whatever value a readable file decodes to is
  returned by \<^verbatim>\<open>load_tasks\<close> and becomes \<^verbatim>\<open>self.tasks\<close> unchanged. The example is a
  file holding \<^verbatim>\<open>{}\<close>: the manager then holds a dictionary, not a list of tasks, and
  the next \<^verbatim>\<open>add_task\<close> raises.
\<close>

theorem load_adopts_decoded_value:
  assumes "disk w = Some f" and "readable f" and "json_load E (data f) = Inr v"
  shows "load_tasks E w = Inr v \<and> init E w = Inr (w\<lparr>tasks := v\<rparr>)"
  using assms
  by (simp add: init_def load_tasks_def load_tasks_try_def os_path_exists_def open_read_def)

theorem load_adopts_decoded_value_witness:
  "disk (on_disk ''{}'') = Some \<lparr>readable = True, writable = True, data = ''{}''\<rparr>
   \<and> readable \<lparr>readable = True, writable = True, data = ''{}''\<rparr>
   \<and> json_load example_env (data \<lparr>readable = True, writable = True, data = ''{}''\<rparr>) = Inr (PDict [])
   \<and> load_tasks example_env (on_disk ''{}'') = Inr (PDict [])
   \<and> init example_env (on_disk ''{}'') = Inr ((on_disk ''{}'')\<lparr>tasks := PDict []\<rparr>)
   \<and> add_task example_env ''buy milk'' ((on_disk ''{}'')\<lparr>tasks := PDict []\<rparr>) = Inl AttributeError"
proof -
  let ?f = "\<lparr>readable = True, writable = True, data = ''{}''\<rparr>"
  have a: "disk (on_disk ''{}'') = Some ?f" by (simp add: on_disk_def)
  have b: "readable ?f" by simp
  have c: "json_load example_env (data ?f) = Inr (PDict [])"
    by (simp add: example_env_def milk_text_def)
  have d: "add_task example_env ''buy milk'' ((on_disk ''{}'')\<lparr>tasks := PDict []\<rparr>) = Inl AttributeError"
    by (simp add: add_task_def Let_def)
  show ?thesis
    using a b c d load_adopts_decoded_value[OF a b c] by blast
qed

section \<open>Unknown ids and invalid statuses\<close>

text \<open>
  C5. On a store of tasks none of which has id \<open>i\<close>, \<^verbatim>\<open>update_task\<close>,
  \<^verbatim>\<open>update_status\<close> with a valid status and \<^verbatim>\<open>delete_task\<close> each print the not-found
  message and change nothing else: the collection, the backing file, the count of
  writes and the clock are as before.
\<close>

theorem absent_id_not_found:
  assumes "tasks w = store_of ts" and "i \<notin> t_id ` set ts" and "s \<in> set valid_statuses"
  shows "update_task E i d w = Inr (w\<lparr>stdout := stdout w @ [NotFound i]\<rparr>)
       \<and> update_status E i s w = Inr (w\<lparr>stdout := stdout w @ [NotFound i]\<rparr>)
       \<and> delete_task E i w = Inr (w\<lparr>stdout := stdout w @ [NotFound i]\<rparr>)"
  using assms find_task_absent[of i ts]
  by (simp add: update_task_def update_status_def delete_task_def py_iter_store print_def)

theorem absent_id_not_found_witness:
  "tasks milk_world = store_of [milk] \<and> 5 \<notin> t_id ` set [milk] \<and> ''terminada'' \<in> set valid_statuses
   \<and> update_task example_env 5 ''buy bread'' milk_world
        = Inr (milk_world\<lparr>stdout := [TaskAdded (PInt 1), NotFound 5]\<rparr>)
   \<and> update_status example_env 5 ''terminada'' milk_world
        = Inr (milk_world\<lparr>stdout := [TaskAdded (PInt 1), NotFound 5]\<rparr>)
   \<and> delete_task example_env 5 milk_world
        = Inr (milk_world\<lparr>stdout := [TaskAdded (PInt 1), NotFound 5]\<rparr>)"
proof -
  have a: "tasks milk_world = store_of [milk]" by (simp add: milk_world_def)
  have b: "5 \<notin> t_id ` set [milk]" by (simp add: milk_def)
  have c: "''terminada'' \<in> set valid_statuses" by (simp add: valid_statuses_def)
  have d: "stdout milk_world = [TaskAdded (PInt 1)]" by (simp add: milk_world_def)
  show ?thesis
    using a b c d absent_id_not_found[OF a b c, of example_env "''buy bread''"] by simp
qed

text \<open>
  C6. A status outside \<^verbatim>\<open>valid_statuses\<close> (the enumeration, spelled
  \<^verbatim>\<open>pendiente\<close>, \<^verbatim>\<open>en_progreso\<close>, \<^verbatim>\<open>terminada\<close> in the program) is rejected with the
  invalid-status message; the collection, and so every task's status, the backing file
  and the count of writes are unchanged.
\<close>

theorem invalid_status_rejected:
  assumes "s \<notin> set valid_statuses"
  shows "\<exists>w'. update_status E i s w = Inr w'
           \<and> tasks w' = tasks w \<and> disk w' = disk w \<and> writes w' = writes w
           \<and> ticks w' = ticks w \<and> stdout w' = stdout w @ [InvalidStatus]"
  using assms by (simp add: update_status_def print_def)

theorem invalid_status_rejected_witness:
  "''archived'' \<notin> set valid_statuses \<and>
   (\<exists>w'. update_status example_env 1 ''archived'' milk_world = Inr w'
       \<and> tasks w' = store_of [milk] \<and> disk w' = disk milk_world \<and> writes w' = 1
       \<and> ticks w' = 2 \<and> stdout w' = [TaskAdded (PInt 1), InvalidStatus])"
proof -
  have a: "''archived'' \<notin> set valid_statuses" by (simp add: valid_statuses_def)
  show ?thesis
    using a invalid_status_rejected[OF a, of example_env 1 milk_world]
    by (simp add: milk_world_def)
qed

text \<open>
  C9. The status is checked before the id is looked up: with an invalid status the
  outcome is the invalid-status message and never the not-found one, whatever
  \<^verbatim>\<open>self.tasks\<close> holds, so also when the id is absent and even when scanning the
  collection would raise.
\<close>

theorem invalid_status_checked_first:
  assumes "s \<notin> set valid_statuses"
  shows "update_status E i s w = Inr (print InvalidStatus w)
       \<and> update_status E i s w \<noteq> Inr (print (NotFound i) w)
       \<and> (\<forall>v. update_status E i s (w\<lparr>tasks := v\<rparr>) = Inr (print InvalidStatus (w\<lparr>tasks := v\<rparr>)))"
proof -
  have "stdout (print InvalidStatus w) \<noteq> stdout (print (NotFound i) w)"
    by (simp add: print_def)
  then have "print InvalidStatus w \<noteq> print (NotFound i) w" by metis
  with assms show ?thesis by (simp add: update_status_def)
qed

theorem invalid_status_checked_first_witness:
  "''archived'' \<notin> set valid_statuses \<and> 5 \<notin> t_id ` set [milk]
   \<and> update_status example_env 5 ''archived'' milk_world = Inr (print InvalidStatus milk_world)
   \<and> update_status example_env 5 ''archived'' milk_world \<noteq> Inr (print (NotFound 5) milk_world)
   \<and> update_status example_env 5 ''archived'' (milk_world\<lparr>tasks := PInt 7\<rparr>)
        = Inr (print InvalidStatus (milk_world\<lparr>tasks := PInt 7\<rparr>))
   \<and> update_status example_env 5 ''pendiente'' (milk_world\<lparr>tasks := PInt 7\<rparr>) = Inl TypeError"
proof -
  have a: "''archived'' \<notin> set valid_statuses" by (simp add: valid_statuses_def)
  have b: "5 \<notin> t_id ` set [milk]" by (simp add: milk_def)
  have c: "update_status example_env 5 ''pendiente'' (milk_world\<lparr>tasks := PInt 7\<rparr>) = Inl TypeError"
    by (simp add: update_status_def valid_statuses_def)
  show ?thesis
    using a b c invalid_status_checked_first[OF a, of example_env 5 milk_world] by blast
qed

section \<open>Listing\<close>

lemma select_status_store:
  "select_status s (map task_dict ts) = Inr (map task_dict (filter (\<lambda>t. t_status t = s) ts))"
  by (induction ts) (simp_all add: task_dict_def)

lemma short_rows_store:
  "short_rows ic (map task_dict ts)
     = Inr (map (\<lambda>t. ShortRow ic (PInt (t_id t)) (PStr (t_description t))) ts)"
  by (induction ts) (simp_all add: task_dict_def)

lemma full_rows_store:
  "full_rows (map task_dict ts)
     = Inr (map (\<lambda>t. FullRow (if t_status t = ''pendiente'' then Hourglass
                              else if t_status t = ''en_progreso'' then Cycle
                              else if t_status t = ''terminada'' then Check
                              else Memo)
                        (PInt (t_id t)) (PStr (t_description t)) (PStr (t_status t))) ts)"
  by (induction ts) (simp_all add: task_dict_def)

lemma list_with_status_store:
  assumes "tasks w = store_of ts"
  shows "list_with_status s ic w =
           Inr (w\<lparr>stdout := stdout w @
                  (if filter (\<lambda>t. t_status t = s) ts = [] then [NoneWith ic]
                   else [Banner, Title ic, Rule]
                        @ map (\<lambda>t. ShortRow ic (PInt (t_id t)) (PStr (t_description t)))
                            (filter (\<lambda>t. t_status t = s) ts)
                        @ [Blank])\<rparr>)"
  using assms
  by (simp add: list_with_status_def py_iter_store select_status_store short_rows_store print_def)

lemma list_all_tasks_store:
  assumes "tasks w = store_of ts"
  shows "list_all_tasks w =
           Inr (w\<lparr>stdout := stdout w @
                  (if ts = [] then [NoTasks]
                   else [Banner, TitleAll, Rule]
                        @ map (\<lambda>t. FullRow (if t_status t = ''pendiente'' then Hourglass
                                            else if t_status t = ''en_progreso'' then Cycle
                                            else if t_status t = ''terminada'' then Check
                                            else Memo)
                                     (PInt (t_id t)) (PStr (t_description t)) (PStr (t_status t))) ts
                        @ [Blank])\<rparr>)"
proof (cases "ts = []")
  case True
  with assms show ?thesis by (simp add: list_all_tasks_def store_of_def print_def)
next
  case False
  then have "\<not> py_not (tasks w)" using assms by (simp add: store_of_def)
  with assms False show ?thesis
    by (simp add: list_all_tasks_def py_iter_store full_rows_store)
qed

text \<open>
  C7. On a store of tasks, each of the three status listings prints one row per task
  whose status equals the listing's status, in store order, and \<^verbatim>\<open>list_all_tasks\<close>
  prints one row per task in store order: the tasks listed for a status are the
  subsequence of the tasks listed in full that have this status. Nothing but the output
  changes.
\<close>

theorem list_by_status_filters:
  assumes "tasks w = store_of ts"
  shows "(\<forall>(m, s, ic) \<in> set [(list_pending_tasks, ''pendiente'', Hourglass),
                             (list_in_progress_tasks, ''en_progreso'', Cycle),
                             (list_completed_tasks, ''terminada'', Check)].
            m w = Inr (w\<lparr>stdout := stdout w @
                         (if filter (\<lambda>t. t_status t = s) ts = [] then [NoneWith ic]
                          else [Banner, Title ic, Rule]
                               @ map (\<lambda>t. ShortRow ic (PInt (t_id t)) (PStr (t_description t)))
                                   (filter (\<lambda>t. t_status t = s) ts)
                               @ [Blank])\<rparr>))
       \<and> list_all_tasks w =
           Inr (w\<lparr>stdout := stdout w @
                  (if ts = [] then [NoTasks]
                   else [Banner, TitleAll, Rule]
                        @ map (\<lambda>t. FullRow (if t_status t = ''pendiente'' then Hourglass
                                            else if t_status t = ''en_progreso'' then Cycle
                                            else if t_status t = ''terminada'' then Check
                                            else Memo)
                                     (PInt (t_id t)) (PStr (t_description t)) (PStr (t_status t))) ts
                        @ [Blank])\<rparr>)"
proof -
  note l = list_with_status_store[OF assms]
  have "list_pending_tasks w = list_with_status ''pendiente'' Hourglass w"
    and "list_in_progress_tasks w = list_with_status ''en_progreso'' Cycle w"
    and "list_completed_tasks w = list_with_status ''terminada'' Check w"
    by (simp_all add: list_pending_tasks_def list_in_progress_tasks_def list_completed_tasks_def)
  then show ?thesis
    using l[of "''pendiente''" Hourglass] l[of "''en_progreso''" Cycle] l[of "''terminada''" Check]
      list_all_tasks_store[OF assms]
    by simp
qed

theorem list_by_status_filters_witness:
  "tasks three_world = store_of [milk, dog, bread]
   \<and> list_pending_tasks three_world =
       Inr (three_world\<lparr>stdout := [TaskAdded (PInt 1), Banner, Title Hourglass, Rule,
              ShortRow Hourglass (PInt 1) (PStr ''buy milk''),
              ShortRow Hourglass (PInt 3) (PStr ''buy bread''), Blank]\<rparr>)
   \<and> list_in_progress_tasks three_world =
       Inr (three_world\<lparr>stdout := [TaskAdded (PInt 1), Banner, Title Cycle, Rule,
              ShortRow Cycle (PInt 2) (PStr ''walk the dog''), Blank]\<rparr>)
   \<and> list_completed_tasks three_world =
       Inr (three_world\<lparr>stdout := [TaskAdded (PInt 1), NoneWith Check]\<rparr>)
   \<and> list_all_tasks three_world =
       Inr (three_world\<lparr>stdout := [TaskAdded (PInt 1), Banner, TitleAll, Rule,
              FullRow Hourglass (PInt 1) (PStr ''buy milk'') (PStr ''pendiente''),
              FullRow Cycle (PInt 2) (PStr ''walk the dog'') (PStr ''en_progreso''),
              FullRow Hourglass (PInt 3) (PStr ''buy bread'') (PStr ''pendiente''), Blank]\<rparr>)"
proof -
  have a: "tasks three_world = store_of [milk, dog, bread]" by (simp add: three_world_def)
  have b: "stdout three_world = [TaskAdded (PInt 1)]" by (simp add: three_world_def milk_world_def)
  show ?thesis
    using a b list_by_status_filters[OF a]
    by (simp add: milk_def dog_def bread_def)
qed

section \<open>The task built by \<^verbatim>\<open>add_task\<close>\<close>

text \<open>
  C8, as amended. On a list of \<open>n\<close> entries with a backing file that can be opened for
  writing, and for a description with which \<^verbatim>\<open>json.dump\<close> can encode the lengthened
  list, \<^verbatim>\<open>add_task\<close> appends a task with id \<open>n + 1\<close>, the given description, status
  \<^verbatim>\<open>pendiente\<close>, \<open>created_at\<close> the first and \<open>updated_at\<close> the second of two successive
  clock readings; it writes the whole collection to the file and prints the id.
\<close>

theorem add_task_appends:
  assumes "tasks w = PList xs" and "can_write w"
      and "json_dump E (PList (xs @ [task_dict \<lparr>t_id = int (length xs) + 1, t_description = d,
                       t_status = ''pendiente'', t_created_at = now_iso E (ticks w),
                       t_updated_at = now_iso E (Suc (ticks w))\<rparr>])) = Inr text"
  shows "\<exists>w' f. add_task E d w = Inr w'
           \<and> tasks w' = PList (xs @ [task_dict \<lparr>t_id = int (length xs) + 1, t_description = d,
                       t_status = ''pendiente'', t_created_at = now_iso E (ticks w),
                       t_updated_at = now_iso E (Suc (ticks w))\<rparr>])
           \<and> disk w' = Some f \<and> data f = text
           \<and> writes w' = Suc (writes w)
           \<and> stdout w' = stdout w @ [TaskAdded (PInt (int (length xs) + 1))]"
proof -
  from add_task_store[OF assms] obtain w' where
    "add_task E d w = Inr w'"
    "tasks w' = PList (xs @ [task_dict \<lparr>t_id = int (length xs) + 1, t_description = d,
                       t_status = ''pendiente'', t_created_at = now_iso E (ticks w),
                       t_updated_at = now_iso E (Suc (ticks w))\<rparr>])"
    "stdout w' = stdout w @ [TaskAdded (PInt (int (length xs) + 1))]"
    "writes w' = Suc (writes w)"
    "\<exists>f. disk w' = Some f \<and> writable f \<and> data f = text"
    by blast
  then show ?thesis by blast
qed

theorem add_task_appends_witness:
  "tasks fresh_world = PList [] \<and> can_write fresh_world
   \<and> json_dump example_env (PList ([] @ [task_dict
          \<lparr>t_id = int (length ([]::pyval list)) + 1, t_description = ''buy milk'',
             t_status = ''pendiente'', t_created_at = now_iso example_env (ticks fresh_world),
             t_updated_at = now_iso example_env (Suc (ticks fresh_world))\<rparr>])) = Inr milk_text
   \<and> (\<exists>w' f. add_task example_env ''buy milk'' fresh_world = Inr w'
         \<and> tasks w' = PList [task_dict milk]
         \<and> disk w' = Some f \<and> data f = milk_text
         \<and> writes w' = 1
         \<and> stdout w' = [TaskAdded (PInt 1)])"
proof -
  have a: "tasks fresh_world = PList []" by (simp add: fresh_world_def)
  have b: "can_write fresh_world" by (simp add: fresh_world_def can_write_def)
  have c: "\<lparr>t_id = int (length ([]::pyval list)) + 1, t_description = ''buy milk'',
             t_status = ''pendiente'', t_created_at = now_iso example_env (ticks fresh_world),
             t_updated_at = now_iso example_env (Suc (ticks fresh_world))\<rparr> = milk"
    by (simp add: milk_def example_env_def fresh_world_def)
  have d: "json_dump example_env (PList ([] @ [task_dict
          \<lparr>t_id = int (length ([]::pyval list)) + 1, t_description = ''buy milk'',
             t_status = ''pendiente'', t_created_at = now_iso example_env (ticks fresh_world),
             t_updated_at = now_iso example_env (Suc (ticks fresh_world))\<rparr>])) = Inr milk_text"
    unfolding c by (simp add: example_env_def store_of_def)
  have e: "stdout fresh_world = [] \<and> writes fresh_world = 0" by (simp add: fresh_world_def)
  from add_task_appends[OF a b d] c e
  show ?thesis using a b d by auto
qed

text \<open>
  C8 as stated fails: under a clock whose two readings differ, the task created has
  \<open>created_at\<close> different from \<open>updated_at\<close>.
\<close>

theorem add_task_timestamps_counterexample:
  "add_task example_env ''buy milk'' fresh_world = Inr milk_world
   \<and> tasks milk_world = PList [task_dict milk]
   \<and> py_getitem (task_dict milk) ''created_at'' \<noteq> py_getitem (task_dict milk) ''updated_at''"
  by (simp add: add_task_def Let_def fresh_world_def milk_world_def example_env_def
        save_tasks_def open_write_def print_def store_of_def task_dict_def milk_def)

end
